theory Spec2Isabelle
  imports Main "HOL-Library.Word" "HOL-Library.List_Lexorder"
begin

unbundle bit_operations_syntax

section \<open>JavaScript values used by the digest routine\<close>

text \<open>
  A JavaScript string is a sequence of UTF-16 code units: \<open>length\<close> counts code units, and
  the relational comparison of two strings (the one the default \<open>Array.prototype.sort\<close>
  uses) compares them code unit by code unit, a proper prefix being smaller.  The order on
  \<open>16 word list\<close> of \<open>HOL-Library.List_Lexorder\<close> is exactly that comparison.
\<close>

type_synonym jsstring = "16 word list"

text \<open>A string literal of the source, all of whose characters are below U+0100.\<close>

definition js :: "string \<Rightarrow> jsstring" where
  "js s = map (\<lambda>c. of_nat (of_char c)) s"

text \<open>
  The values a filter can hold: a string, a number, or \<open>undefined\<close> (what a property read
  yields when the property is absent).  Numbers are the integer-valued Numbers; the
  rendering below is the one of ECMAScript's \<open>Number::toString\<close> on the safe integers
  (absolute value at most \<open>2^53 - 1\<close>), where it is the plain decimal expansion.
\<close>

datatype jsscalar = JString jsstring | JNumber int | JUndefined

datatype jsvalue = Scalar jsscalar | Array "jsscalar list"

text \<open>
  The \<open>filters\<close> object: its own enumerable properties in the order \<open>Object.keys\<close>
  enumerates them.  A JavaScript object holds each key once: \<open>distinct (map fst filters)\<close>.
\<close>

type_synonym filterset = "(jsstring \<times> jsvalue) list"

definition object_keys :: "filterset \<Rightarrow> jsstring list" where
  "object_keys filters = map fst filters"


definition digit_char :: "nat \<Rightarrow> 16 word" where
  "digit_char d = of_nat (48 + d)"

function decimal_digits :: "nat \<Rightarrow> jsstring" where
  "decimal_digits n =
     (if n < 10 then [digit_char n] else decimal_digits (n div 10) @ [digit_char (n mod 10)])"
  by pat_completeness auto
termination
  by (relation "measure id") auto

definition number_to_string :: "int \<Rightarrow> jsstring" where
  "number_to_string n =
     (if n < 0 then 45 # decimal_digits (nat (- n)) else decimal_digits (nat n))"

text \<open>
  \<open>ToString\<close> as \<open>Array.prototype.join\<close> applies it to an element: a string is itself, a
  number is rendered, \<open>undefined\<close> gives the empty string.
\<close>

fun to_string :: "jsscalar \<Rightarrow> jsstring" where
  "to_string (JString s) = s"
| "to_string (JNumber n) = number_to_string n"
| "to_string JUndefined = []"

fun join :: "jsstring \<Rightarrow> jsscalar list \<Rightarrow> jsstring" where
  "join sep [] = []"
| "join sep [x] = to_string x"
| "join sep (x # y # ys) = to_string x @ sep @ join sep (y # ys)"

definition array_includes :: "'a list \<Rightarrow> 'a \<Rightarrow> bool" where
  "array_includes xs x = (x \<in> set xs)"

section \<open>UTF-8 encoding of a string\<close>

text \<open>
  \<open>crypto.createHmac('sha1', secret)\<close> and \<open>hmac.update(filterString)\<close> take strings and
  hash their UTF-8 encoding.  A surrogate pair is one code point; an unpaired surrogate is
  encoded as U+FFFD.
\<close>

type_synonym byte = "8 word"

definition is_high_surrogate :: "16 word \<Rightarrow> bool" where
  "is_high_surrogate u = (0xD800 \<le> u \<and> u \<le> 0xDBFF)"

definition is_low_surrogate :: "16 word \<Rightarrow> bool" where
  "is_low_surrogate u = (0xDC00 \<le> u \<and> u \<le> 0xDFFF)"

definition is_surrogate :: "16 word \<Rightarrow> bool" where
  "is_surrogate u = (0xD800 \<le> u \<and> u \<le> 0xDFFF)"

definition pair_code_point :: "16 word \<Rightarrow> 16 word \<Rightarrow> nat" where
  "pair_code_point hi lo = 0x10000 + (unat hi - 0xD800) * 0x400 + (unat lo - 0xDC00)"

text \<open>
  The code points of a string, as \<open>String.prototype.codePointAt\<close> and the string iterator
  read them: an unpaired surrogate is a code point of its own.
\<close>

fun code_points :: "jsstring \<Rightarrow> nat list" where
  "code_points [] = []"
| "code_points [u] = [unat u]"
| "code_points (u # v # us) =
     (if is_high_surrogate u \<and> is_low_surrogate v
      then pair_code_point u v # code_points us
      else unat u # code_points (v # us))"

definition utf8_code_point :: "nat \<Rightarrow> byte list" where
  "utf8_code_point c =
     (if c < 0x80 then [of_nat c]
      else if c < 0x800 then [of_nat (0xC0 + c div 0x40), of_nat (0x80 + c mod 0x40)]
      else if c < 0x10000 then
        [of_nat (0xE0 + c div 0x1000), of_nat (0x80 + c div 0x40 mod 0x40),
         of_nat (0x80 + c mod 0x40)]
      else
        [of_nat (0xF0 + c div 0x40000), of_nat (0x80 + c div 0x1000 mod 0x40),
         of_nat (0x80 + c div 0x40 mod 0x40), of_nat (0x80 + c mod 0x40)])"

definition utf8 :: "jsstring \<Rightarrow> byte list" where
  "utf8 s =
     concat (map (\<lambda>c. utf8_code_point (if 0xD800 \<le> c \<and> c \<le> 0xDFFF then 0xFFFD else c))
                 (code_points s))"

section \<open>HMAC-SHA1\<close>

text \<open>
  Node's \<open>crypto\<close> module is a library the repository calls.  \<open>createHmac('sha1', key)\<close>,
  \<open>update\<close> and \<open>digest('hex')\<close> are modelled by the functions they implement: SHA-1 of
  FIPS 180-4, HMAC of RFC 2104 (block size 64, a longer key hashed first) and lowercase
  hexadecimal output.
\<close>

type_synonym u32 = "32 word"

definition rotl32 :: "nat \<Rightarrow> u32 \<Rightarrow> u32" where
  "rotl32 n x = push_bit n x OR drop_bit (32 - n) x"

definition be32 :: "u32 \<Rightarrow> byte list" where
  "be32 w = [ucast (drop_bit 24 w), ucast (drop_bit 16 w), ucast (drop_bit 8 w), ucast w]"

definition be64 :: "64 word \<Rightarrow> byte list" where
  "be64 w = map (\<lambda>i. ucast (drop_bit (8 * (7 - i)) w)) [0..<8]"

definition word_of_be :: "byte list \<Rightarrow> u32" where
  "word_of_be bs = foldl (\<lambda>acc b. push_bit 8 acc OR ucast b) 0 bs"

definition sha1_pad :: "byte list \<Rightarrow> byte list" where
  "sha1_pad m =
     m @ [0x80] @ replicate ((119 - length m mod 64) mod 64) 0 @ be64 (of_nat (8 * length m))"

fun chunks :: "nat \<Rightarrow> 'a list \<Rightarrow> 'a list list" where
  "chunks n [] = []"
| "chunks n xs = (if n = 0 then [xs] else take n xs # chunks n (drop n xs))"

text \<open>
  The message schedule \<open>W\<^sub>0 \<dots> W\<^sub>7\<^sub>9\<close>, produced from a window of the sixteen most recent
  words: \<open>W\<^sub>t\<^sub>+\<^sub>1\<^sub>6 = rotl 1 (W\<^sub>t\<^sub>+\<^sub>1\<^sub>3 XOR W\<^sub>t\<^sub>+\<^sub>8 XOR W\<^sub>t\<^sub>+\<^sub>2 XOR W\<^sub>t)\<close>.
\<close>

fun schedule :: "nat \<Rightarrow> u32 list \<Rightarrow> u32 list" where
  "schedule 0 w = []"
| "schedule (Suc n) w =
     hd w # schedule n (tl w @ [rotl32 1 (w ! 13 XOR w ! 8 XOR w ! 2 XOR w ! 0)])"

definition sha1_f :: "nat \<Rightarrow> u32 \<Rightarrow> u32 \<Rightarrow> u32 \<Rightarrow> u32" where
  "sha1_f t b c d =
     (if t < 20 then (b AND c) OR (NOT b AND d)
      else if t < 40 then b XOR c XOR d
      else if t < 60 then (b AND c) OR (b AND d) OR (c AND d)
      else b XOR c XOR d)"

definition sha1_k :: "nat \<Rightarrow> u32" where
  "sha1_k t =
     (if t < 20 then 0x5A827999 else if t < 40 then 0x6ED9EBA1
      else if t < 60 then 0x8F1BBCDC else 0xCA62C1D6)"

type_synonym sha1_state = "u32 \<times> u32 \<times> u32 \<times> u32 \<times> u32"

fun sha1_round :: "sha1_state \<Rightarrow> nat \<times> u32 \<Rightarrow> sha1_state" where
  "sha1_round (a, b, c, d, e) (t, w) =
     (rotl32 5 a + sha1_f t b c d + e + sha1_k t + w, a, rotl32 30 b, c, d)"

fun sha1_block :: "sha1_state \<Rightarrow> byte list \<Rightarrow> sha1_state" where
  "sha1_block (h0, h1, h2, h3, h4) blk =
     (case foldl sha1_round (h0, h1, h2, h3, h4)
             (zip [0..<80] (schedule 80 (map word_of_be (chunks 4 blk)))) of
        (a, b, c, d, e) \<Rightarrow> (h0 + a, h1 + b, h2 + c, h3 + d, h4 + e))"

definition sha1 :: "byte list \<Rightarrow> byte list" where
  "sha1 m =
     (case foldl sha1_block (0x67452301, 0xEFCDAB89, 0x98BADCFE, 0x10325476, 0xC3D2E1F0)
             (chunks 64 (sha1_pad m)) of
        (h0, h1, h2, h3, h4) \<Rightarrow> be32 h0 @ be32 h1 @ be32 h2 @ be32 h3 @ be32 h4)"

definition hmac_sha1 :: "byte list \<Rightarrow> byte list \<Rightarrow> byte list" where
  "hmac_sha1 key msg =
     (let k0 = (if length key > 64 then sha1 key else key);
          k = k0 @ replicate (64 - length k0) 0
      in sha1 (map (\<lambda>b. b XOR 0x5C) k @ sha1 (map (\<lambda>b. b XOR 0x36) k @ msg)))"

definition hex_digit :: "nat \<Rightarrow> 16 word" where
  "hex_digit n = (if n < 10 then of_nat (48 + n) else of_nat (87 + n))"

definition hex :: "byte list \<Rightarrow> jsstring" where
  "hex bs = concat (map (\<lambda>b. [hex_digit (unat b div 16), hex_digit (unat b mod 16)]) bs)"

section \<open>generateExplorerDigest\<close>

datatype error = Error string

definition excludeFromDigest :: "jsstring list" where
  "excludeFromDigest = [js ''order'', js ''page[number]'', js ''page[size]'']"

text \<open>
  \<open>Object.keys(filters).filter(key => !excludeFromDigest.includes(key)).sort()\<close>: the
  default sort compares the keys as strings, by UTF-16 code units.
\<close>

definition filterKeys :: "filterset \<Rightarrow> jsstring list" where
  "filterKeys filters =
     sort (filter (\<lambda>key. \<not> array_includes excludeFromDigest key) (object_keys filters))"

text \<open>
  The body of the \<open>forEach\<close>: \<open>parts\<close> is the array being built, \<open>filters[key]\<close> the property
  read.  Both branches push the key first.
\<close>

definition push_entry :: "filterset \<Rightarrow> jsscalar list \<Rightarrow> jsstring \<Rightarrow> jsscalar list" where
  "push_entry filters parts key =
     (case map_of filters key of
        Some (Array value) \<Rightarrow> (parts @ [JString key]) @ value
      | Some (Scalar value) \<Rightarrow> (parts @ [JString key]) @ [value]
      | None \<Rightarrow> (parts @ [JString key]) @ [JUndefined])"

text \<open>
  What one run of the body pushes, on an empty array.
\<close>

definition entry_parts :: "filterset \<Rightarrow> jsstring \<Rightarrow> jsscalar list" where
  "entry_parts filters key = push_entry filters [] key"

definition build_parts :: "filterset \<Rightarrow> jsscalar list" where
  "build_parts filters = foldl (push_entry filters) [] (filterKeys filters)"

definition filterString :: "filterset \<Rightarrow> jsstring" where
  "filterString filters = join (js ''|'') (build_parts filters)"

text \<open>
  The secret is \<open>None\<close> when the argument is missing (\<open>undefined\<close>).  \<open>!secret\<close> holds of a
  missing and of an empty secret; the test comes first and throws.
\<close>

definition generateExplorerDigest :: "filterset \<Rightarrow> jsstring option \<Rightarrow> error + jsstring" where
  "generateExplorerDigest filters secret =
     (case secret of
        None \<Rightarrow> Inl (Error ''ALTMETRIC_EXPLORER_API_SECRET must be at least 16 characters'')
      | Some s \<Rightarrow>
          if s = [] \<or> length s < 16
          then Inl (Error ''ALTMETRIC_EXPLORER_API_SECRET must be at least 16 characters'')
          else Inr (hex (hmac_sha1 (utf8 s) (utf8 (filterString filters)))))"

section \<open>The canonical string in the words of the specification\<close>

text \<open>
  The specification's algorithm: remove the excluded keys from a working copy of the
  filters, sort the remaining keys, emit for each key the key and then its value tokens, and
  join the tokens with a pipe, none before the first token and none after the last.
\<close>

definition ExcludedKeys :: "jsstring set" where
  "ExcludedKeys = {js ''order'', js ''page[number]'', js ''page[size]''}"

fun spec_join :: "jsstring list \<Rightarrow> jsstring" where
  "spec_join [] = []"
| "spec_join (t # ts) = t @ concat (map (\<lambda>u. 0x7C # u) ts)"

fun value_tokens :: "jsvalue \<Rightarrow> jsstring list" where
  "value_tokens (Array vs) = map to_string vs"
| "value_tokens (Scalar v) = [to_string v]"

definition spec_canonical_string :: "filterset \<Rightarrow> jsstring" where
  "spec_canonical_string filters =
     (let working = filter (\<lambda>(k, v). k \<notin> ExcludedKeys) filters;
          keys = sort (map fst working);
          tokens = concat (map (\<lambda>k. k # (case map_of working k of
                                               Some x \<Rightarrow> value_tokens x | None \<Rightarrow> [])) keys)
      in spec_join tokens)"

text \<open>The elements a value contributes to \<open>parts\<close>.\<close>

fun value_elems :: "jsvalue \<Rightarrow> jsscalar list" where
  "value_elems (Array vs) = vs"
| "value_elems (Scalar v) = [v]"

text \<open>Comparison of two strings code point by code point.\<close>

definition code_point_le :: "jsstring \<Rightarrow> jsstring \<Rightarrow> bool" where
  "code_point_le a b = (code_points a \<le> code_points b)"





section \<open>Properties\<close>

declare decimal_digits.simps [simp del]

lemma js_pipe: "js ''|'' = [0x7C]"
  by (simp add: js_def)

lemma length_js: "length (js s) = length s"
  by (simp add: js_def)

lemma length_be32: "length (be32 w) = 4"
  by (simp add: be32_def)

lemma length_sha1: "length (sha1 m) = 20"
  by (simp add: sha1_def length_be32 split: prod.splits)

lemma length_hmac_sha1: "length (hmac_sha1 key msg) = 20"
  by (simp add: hmac_sha1_def Let_def length_sha1)

lemma length_hex: "length (hex bs) = 2 * length bs"
  by (induction bs) (simp_all add: hex_def)

lemma hex_digit_range:
  assumes "n < 16"
  shows "hex_digit n \<in> set (js ''0123456789abcdef'')"
proof -
  from assms have "n \<in> {0, 1, 2, 3, 4, 5, 6, 7, 8, 9, 10, 11, 12, 13, 14, 15}"
    by simp arith
  then show ?thesis
    by (auto simp: hex_digit_def js_def)
qed

lemma set_hex: "set (hex bs) \<subseteq> set (js ''0123456789abcdef'')"
proof -
  have "unat b div 16 < 16" "unat b mod 16 < 16" for b :: byte
  proof -
    have "unat b < 2 ^ LENGTH(8)" by (rule unsigned_less)
    then have "unat b < 256" by simp
    then show "unat b div 16 < 16" by simp
    show "unat b mod 16 < 16" by simp
  qed
  then show ?thesis
    by (auto simp: hex_def intro: hex_digit_range)
qed

text \<open>
  Claim C8.  For every filter set and every secret of at least 16 code units, the value
  returned by \<open>generateExplorerDigest\<close> is a string of exactly 40 characters, each one of
  \<open>0123456789abcdef\<close>: the lowercase hexadecimal encoding of the 20 bytes HMAC-SHA1 produces.
\<close>

theorem digest_is_40_lowercase_hex:
  assumes "16 \<le> length secret"
  shows "\<exists>d. generateExplorerDigest filters (Some secret) = Inr d \<and> length d = 40
           \<and> set d \<subseteq> set (js ''0123456789abcdef'')"
  using assms set_hex
  by (auto simp: generateExplorerDigest_def length_hex length_hmac_sha1)

theorem digest_is_40_lowercase_hex_witness:
  "16 \<le> length (js ''this-is-a-valid-secret-key'')
   \<and> (\<exists>d. generateExplorerDigest [(js ''q'', Scalar (JString (js ''test'')))]
              (Some (js ''this-is-a-valid-secret-key'')) = Inr d
          \<and> length d = 40 \<and> set d \<subseteq> set (js ''0123456789abcdef''))"
proof -
  have h: "16 \<le> length (js ''this-is-a-valid-secret-key'')"
    by (simp add: length_js)
  show ?thesis
    using h digest_is_40_lowercase_hex [OF h, of "[(js ''q'', Scalar (JString (js ''test'')))]"]
    by blast
qed


lemma array_includes_excluded: "array_includes excludeFromDigest k = (k \<in> ExcludedKeys)"
  by (simp add: array_includes_def excludeFromDigest_def ExcludedKeys_def)

lemma push_entry_append: "push_entry filters parts key = parts @ entry_parts filters key"
  by (simp add: push_entry_def entry_parts_def split: option.splits jsvalue.splits)

lemma foldl_push_entry:
  "foldl (push_entry filters) parts keys = parts @ concat (map (entry_parts filters) keys)"
proof (induction keys arbitrary: parts)
  case Nil
  show ?case by simp
next
  case (Cons k ks)
  have "foldl (push_entry filters) parts (k # ks)
        = foldl (push_entry filters) (push_entry filters parts k) ks"
    by simp
  also have "\<dots> = push_entry filters parts k @ concat (map (entry_parts filters) ks)"
    by (rule Cons.IH)
  also have "\<dots> = parts @ concat (map (entry_parts filters) (k # ks))"
    by (simp add: push_entry_append)
  finally show ?case .
qed

lemma build_parts_concat:
  "build_parts filters = concat (map (entry_parts filters) (filterKeys filters))"
  by (simp add: build_parts_def foldl_push_entry)

lemma spec_join_snoc:
  "spec_join (ts @ [t]) = (if ts = [] then t else spec_join ts @ 0x7C # t)"
  by (cases ts) simp_all

lemma join_spec_join: "join (js ''|'') xs = spec_join (map to_string xs)"
  by (induction "js ''|''" xs rule: join.induct) (simp_all add: js_pipe)

lemma filterString_tokens:
  "filterString filters = spec_join (map to_string (build_parts filters))"
  by (simp add: filterString_def join_spec_join)

lemma entry_parts_tokens:
  "map_of filters key = Some x \<Longrightarrow>
   map to_string (entry_parts filters key) = key # value_tokens x"
  by (cases x) (simp_all add: entry_parts_def push_entry_def)

lemma map_of_filter_key:
  "P key \<Longrightarrow> map_of (filter (\<lambda>(k, v). P k) filters) key = map_of filters key"
  by (induction filters) auto

lemma filter_keys_entries:
  "filter P (map fst filters) = map fst (filter (\<lambda>(k, v). P k) filters)"
  by (induction filters) auto

lemma filterKeys_working:
  "filterKeys filters = sort (map fst (filter (\<lambda>(k, v). k \<notin> ExcludedKeys) filters))"
  by (simp add: filterKeys_def object_keys_def array_includes_excluded filter_keys_entries)

lemma filterKeys_set:
  "set (filterKeys filters) = {k \<in> fst ` set filters. k \<notin> ExcludedKeys}"
  by (auto simp: filterKeys_def object_keys_def array_includes_excluded)

lemma filterString_spec: "filterString filters = spec_canonical_string filters"
proof -
  let ?w = "filter (\<lambda>(k, v). k \<notin> ExcludedKeys) filters"
  have tok: "map to_string (entry_parts filters k)
             = k # (case map_of ?w k of Some x \<Rightarrow> value_tokens x | None \<Rightarrow> [])"
    if "k \<in> set (filterKeys filters)" for k
  proof -
    from that have k: "k \<in> fst ` set filters" "k \<notin> ExcludedKeys"
      by (simp_all add: filterKeys_set)
    then obtain x where x: "map_of filters k = Some x"
      by (metis map_of_eq_None_iff not_Some_eq)
    have "map_of ?w k = map_of filters k"
      using k(2) by (rule map_of_filter_key [where P = "\<lambda>k. k \<notin> ExcludedKeys"])
    with x show ?thesis by (simp add: entry_parts_tokens)
  qed
  have "map to_string (build_parts filters)
        = concat (map (\<lambda>k. map to_string (entry_parts filters k)) (filterKeys filters))"
    by (simp add: build_parts_concat map_concat comp_def)
  also have "\<dots> = concat (map (\<lambda>k. k # (case map_of ?w k of
                                  Some x \<Rightarrow> value_tokens x | None \<Rightarrow> [])) (filterKeys filters))"
    using tok by (auto intro!: arg_cong [where f = concat] map_cong)
  finally show ?thesis
    by (simp add: filterString_tokens spec_canonical_string_def Let_def
        filterKeys_working [symmetric])
qed

lemma utf8_Nil: "utf8 [] = []"
  by (simp add: utf8_def)

lemma digest_valid:
  "16 \<le> length secret \<Longrightarrow>
   generateExplorerDigest filters (Some secret)
   = Inr (hex (hmac_sha1 (utf8 secret) (utf8 (filterString filters))))"
  by (auto simp: generateExplorerDigest_def)

text \<open>
  Evaluation inside the kernel.  A word that is only operated on is never brought to a
  numeral by rewriting, and the schedule would copy its unevaluated terms; the code
  equations below pass every new word through its integer value, which normalises it.
\<close>

lemma rotl32_code [code]:
  "rotl32 n x = word_of_int (uint (push_bit n x OR drop_bit (32 - n) x))"
  by (simp add: rotl32_def)

lemma sha1_round_code [code]:
  "sha1_round (a, b, c, d, e) (t, w) =
     (word_of_int (uint (rotl32 5 a + sha1_f t b c d + e + sha1_k t + w)),
      a, rotl32 30 b, c, d)"
  by simp

lemma sha1_block_code [code]:
  "sha1_block (h0, h1, h2, h3, h4) blk =
     (case foldl sha1_round (h0, h1, h2, h3, h4)
             (zip [0..<80] (schedule 80 (map word_of_be (chunks 4 blk)))) of
        (a, b, c, d, e) \<Rightarrow>
          (word_of_int (uint (h0 + a)), word_of_int (uint (h1 + b)),
           word_of_int (uint (h2 + c)), word_of_int (uint (h3 + d)),
           word_of_int (uint (h4 + e))))"
  by simp

lemma utf8_valid_secret:
  "utf8 (js ''this-is-a-valid-secret-key'') =
     [116, 104, 105, 115, 45, 105, 115, 45, 97, 45, 118, 97, 108, 105, 100, 45, 115, 101, 99,
      114, 101, 116, 45, 107, 101, 121]"
  by (simp add: utf8_def js_def utf8_code_point_def is_high_surrogate_def)

lemma utf8_q_order:
  "utf8 (js ''q|order'') =
     [113, 124, 111, 114, 100, 101, 114]"
  by (simp add: utf8_def js_def utf8_code_point_def is_high_surrogate_def)

lemma utf8_q_page_size:
  "utf8 (js ''q|page[size]'') =
     [113, 124, 112, 97, 103, 101, 91, 115, 105, 122, 101, 93]"
  by (simp add: utf8_def js_def utf8_code_point_def is_high_surrogate_def)

lemma hmac_sha1_empty_message:
  "hex (hmac_sha1 (utf8 (js ''this-is-a-valid-secret-key'')) [])
   = js ''7ee76f765974ed27b6295549f1fc5925d8798a06''"
proof -
  have "hex (hmac_sha1
          [116, 104, 105, 115, 45, 105, 115, 45, 97, 45, 118, 97, 108, 105, 100, 45, 115,
           101, 99, 114, 101, 116, 45, 107, 101, 121]
          [])
        = [55, 101, 101, 55, 54, 102, 55, 54, 53, 57, 55, 52, 101, 100, 50, 55, 98, 54, 50,
           57, 53, 53, 52, 57, 102, 49, 102, 99, 53, 57, 50, 53, 100, 56, 55, 57, 56, 97, 48,
           54]"
    by code_simp
  moreover have "js ''7ee76f765974ed27b6295549f1fc5925d8798a06''
        = [55, 101, 101, 55, 54, 102, 55, 54, 53, 57, 55, 52, 101, 100, 50, 55, 98, 54, 50,
           57, 53, 53, 52, 57, 102, 49, 102, 99, 53, 57, 50, 53, 100, 56, 55, 57, 56, 97, 48,
           54]"
    by (simp add: js_def)
  ultimately show ?thesis
    by (simp only: utf8_valid_secret)
qed

lemma hmac_sha1_q_order:
  "hex (hmac_sha1 (utf8 (js ''this-is-a-valid-secret-key'')) (utf8 (js ''q|order'')))
   = js ''05af8c291a412cc6b233cd51e98c895be79a3a10''"
proof -
  have "hex (hmac_sha1
          [116, 104, 105, 115, 45, 105, 115, 45, 97, 45, 118, 97, 108, 105, 100, 45, 115,
           101, 99, 114, 101, 116, 45, 107, 101, 121]
          [113, 124, 111, 114, 100, 101, 114])
        = [48, 53, 97, 102, 56, 99, 50, 57, 49, 97, 52, 49, 50, 99, 99, 54, 98, 50, 51, 51,
           99, 100, 53, 49, 101, 57, 56, 99, 56, 57, 53, 98, 101, 55, 57, 97, 51, 97, 49, 48]"
    by code_simp
  moreover have "js ''05af8c291a412cc6b233cd51e98c895be79a3a10''
        = [48, 53, 97, 102, 56, 99, 50, 57, 49, 97, 52, 49, 50, 99, 99, 54, 98, 50, 51, 51,
           99, 100, 53, 49, 101, 57, 56, 99, 56, 57, 53, 98, 101, 55, 57, 97, 51, 97, 49, 48]"
    by (simp add: js_def)
  ultimately show ?thesis
    by (simp only: utf8_valid_secret utf8_q_order)
qed

lemma hmac_sha1_q_page_size:
  "hex (hmac_sha1 (utf8 (js ''this-is-a-valid-secret-key'')) (utf8 (js ''q|page[size]'')))
   = js ''a6c718c72a154249f76a0d882d03f2c5b3dfca0f''"
proof -
  have "hex (hmac_sha1
          [116, 104, 105, 115, 45, 105, 115, 45, 97, 45, 118, 97, 108, 105, 100, 45, 115,
           101, 99, 114, 101, 116, 45, 107, 101, 121]
          [113, 124, 112, 97, 103, 101, 91, 115, 105, 122, 101, 93])
        = [97, 54, 99, 55, 49, 56, 99, 55, 50, 97, 49, 53, 52, 50, 52, 57, 102, 55, 54, 97,
           48, 100, 56, 56, 50, 100, 48, 51, 102, 50, 99, 53, 98, 51, 100, 102, 99, 97, 48,
           102]"
    by code_simp
  moreover have "js ''a6c718c72a154249f76a0d882d03f2c5b3dfca0f''
        = [97, 54, 99, 55, 49, 56, 99, 55, 50, 97, 49, 53, 52, 50, 52, 57, 102, 55, 54, 97,
           48, 100, 56, 56, 50, 100, 48, 51, 102, 50, 99, 53, 98, 51, 100, 102, 99, 97, 48,
           102]"
    by (simp add: js_def)
  ultimately show ?thesis
    by (simp only: utf8_valid_secret utf8_q_page_size)
qed

lemma digest_filterString_cong:
  "filterString f1 = filterString f2 \<Longrightarrow>
   generateExplorerDigest f1 secret = generateExplorerDigest f2 secret"
  by (cases secret) (simp_all add: generateExplorerDigest_def)

lemma entry_parts_cong:
  "map_of f1 k = map_of f2 k \<Longrightarrow> entry_parts f1 k = entry_parts f2 k"
  by (simp add: entry_parts_def push_entry_def)

lemma filterKeys_distinct:
  "distinct (map fst filters) \<Longrightarrow> distinct (filterKeys filters)"
  by (simp add: filterKeys_def object_keys_def)

lemma filterKeys_sorted: "sorted (filterKeys filters)"
  by (simp add: filterKeys_def)

lemma filterString_cong:
  assumes d1: "distinct (map fst f1)" and d2: "distinct (map fst f2)"
    and agree: "\<And>k. k \<notin> ExcludedKeys \<Longrightarrow> map_of f1 k = map_of f2 k"
  shows "filterString f1 = filterString f2"
proof -
  have dom: "(k \<in> fst ` set f1) = (k \<in> fst ` set f2)" if "k \<notin> ExcludedKeys" for k
    using agree [OF that] by (metis map_of_eq_None_iff)
  have "set (filterKeys f1) = set (filterKeys f2)"
    using dom by (auto simp: filterKeys_set)
  then have keys: "filterKeys f1 = filterKeys f2"
    using d1 d2
    by (intro sorted_distinct_set_unique filterKeys_sorted filterKeys_distinct)
  have eq: "map (entry_parts f1) (filterKeys f2) = map (entry_parts f2) (filterKeys f2)"
  proof (rule map_cong [OF refl])
    fix k assume "k \<in> set (filterKeys f2)"
    then have "k \<notin> ExcludedKeys" by (simp add: filterKeys_set)
    then show "entry_parts f1 k = entry_parts f2 k"
      by (intro entry_parts_cong agree)
  qed
  have "build_parts f1 = concat (map (entry_parts f1) (filterKeys f2))"
    by (simp add: build_parts_concat keys)
  also have "\<dots> = concat (map (entry_parts f2) (filterKeys f2))"
    by (simp only: eq)
  also have "\<dots> = build_parts f2"
    by (simp add: build_parts_concat)
  finally show ?thesis by (simp add: filterString_def)
qed

text \<open>
  Claim C1.  Two filter sets that agree on every key other than \<open>order\<close>, \<open>page[number]\<close>
  and \<open>page[size]\<close> have the same digest (and fail alike on an invalid secret): adding,
  removing or changing an excluded key changes nothing.
\<close>

theorem digest_ignores_excluded_keys:
  assumes "distinct (map fst filters1)" and "distinct (map fst filters2)"
    and "\<forall>key. key \<notin> set excludeFromDigest \<longrightarrow> map_of filters1 key = map_of filters2 key"
  shows "generateExplorerDigest filters1 secret = generateExplorerDigest filters2 secret"
proof (rule digest_filterString_cong, rule filterString_cong)
  fix k assume "k \<notin> ExcludedKeys"
  then have "k \<notin> set excludeFromDigest"
    by (simp add: excludeFromDigest_def ExcludedKeys_def)
  with assms(3) show "map_of filters1 k = map_of filters2 k" by blast
qed (use assms in simp_all)

text \<open>
  Claim C4.  Two filter sets that denote the same mapping from keys to values, whatever the
  order in which their keys are enumerated, have the same digest.
\<close>

theorem digest_independent_of_key_order:
  assumes "distinct (map fst filters1)" and "distinct (map fst filters2)"
    and "map_of filters1 = map_of filters2"
  shows "generateExplorerDigest filters1 secret = generateExplorerDigest filters2 secret"
  by (rule digest_filterString_cong, rule filterString_cong) (use assms in simp_all)

text \<open>
  Claim C9.  A filter set that maps a key to the scalar \<open>v\<close> and the one that maps it to the
  one-element list \<open>[v]\<close>, all other entries being equal, have the same digest.
\<close>

theorem scalar_same_as_singleton_list:
  "generateExplorerDigest (before @ (key, Scalar v) # after) secret
   = generateExplorerDigest (before @ (key, Array [v]) # after) secret"
proof -
  let ?f1 = "before @ (key, Scalar v) # after" and ?f2 = "before @ (key, Array [v]) # after"
  have "entry_parts ?f1 k = entry_parts ?f2 k" for k
    by (cases "map_of before k"; cases "k = key")
      (simp_all add: entry_parts_def push_entry_def map_add_def)
  then have "entry_parts ?f1 = entry_parts ?f2"
    by (rule ext)
  moreover have "filterKeys ?f1 = filterKeys ?f2"
    by (simp add: filterKeys_def object_keys_def)
  ultimately have "build_parts ?f1 = build_parts ?f2"
    by (simp add: build_parts_concat)
  then have "filterString ?f1 = filterString ?f2"
    by (simp add: filterString_def)
  then show ?thesis
    by (rule digest_filterString_cong)
qed

text \<open>
  Claim C6.  When the filter set is empty, or holds excluded keys only, the joined string is
  empty and the function still signs: for a valid secret the result is the hexadecimal
  HMAC-SHA1 of the empty message under that secret, a value that depends on the secret only.
\<close>

theorem empty_after_exclusion_signs_empty_string:
  assumes "16 \<le> length secret"
    and "\<forall>key \<in> set (object_keys filters). array_includes excludeFromDigest key"
  shows "filterString filters = []
         \<and> generateExplorerDigest filters (Some secret) = Inr (hex (hmac_sha1 (utf8 secret) []))"
proof -
  from assms(2) have "filterKeys filters = []"
    by (simp add: filterKeys_def)
  then have "filterString filters = []"
    by (simp add: filterString_def build_parts_def)
  with assms(1) show ?thesis
    by (simp add: digest_valid utf8_Nil)
qed

theorem digest_ignores_excluded_keys_witness:
  "distinct (map fst [(js ''q'', Scalar (JString (js ''test''))),
                      (js ''order'', Scalar (JString (js ''score_desc''))),
                      (js ''page[number]'', Scalar (JNumber 1))])
   \<and> distinct (map fst [(js ''page[size]'', Scalar (JNumber 100)),
                        (js ''order'', Scalar (JString (js ''date_desc''))),
                        (js ''q'', Scalar (JString (js ''test'')))])
   \<and> generateExplorerDigest
         [(js ''q'', Scalar (JString (js ''test''))),
          (js ''order'', Scalar (JString (js ''score_desc''))),
          (js ''page[number]'', Scalar (JNumber 1))]
         (Some (js ''this-is-a-valid-secret-key''))
       = generateExplorerDigest
         [(js ''page[size]'', Scalar (JNumber 100)),
          (js ''order'', Scalar (JString (js ''date_desc''))),
          (js ''q'', Scalar (JString (js ''test'')))]
         (Some (js ''this-is-a-valid-secret-key''))"
proof -
  let ?f1 = "[(js ''q'', Scalar (JString (js ''test''))),
              (js ''order'', Scalar (JString (js ''score_desc''))),
              (js ''page[number]'', Scalar (JNumber 1))]"
  let ?f2 = "[(js ''page[size]'', Scalar (JNumber 100)),
              (js ''order'', Scalar (JString (js ''date_desc''))),
              (js ''q'', Scalar (JString (js ''test'')))]"
  have d1: "distinct (map fst ?f1)" and d2: "distinct (map fst ?f2)"
    by (simp_all add: js_def)
  have agree: "\<forall>key. key \<notin> set excludeFromDigest \<longrightarrow> map_of ?f1 key = map_of ?f2 key"
    by (simp add: excludeFromDigest_def)
  show ?thesis
    using d1 d2 digest_ignores_excluded_keys [OF d1 d2 agree]
    by blast
qed

theorem digest_independent_of_key_order_witness:
  "distinct (map fst [(js ''timeframe'', Scalar (JString (js ''1w''))),
                      (js ''q'', Scalar (JString (js ''test''))),
                      (js ''scope'', Scalar (JString (js ''all'')))])
   \<and> distinct (map fst [(js ''q'', Scalar (JString (js ''test''))),
                        (js ''scope'', Scalar (JString (js ''all''))),
                        (js ''timeframe'', Scalar (JString (js ''1w'')))])
   \<and> generateExplorerDigest
         [(js ''timeframe'', Scalar (JString (js ''1w''))),
          (js ''q'', Scalar (JString (js ''test''))),
          (js ''scope'', Scalar (JString (js ''all'')))]
         (Some (js ''this-is-a-valid-secret-key''))
       = generateExplorerDigest
         [(js ''q'', Scalar (JString (js ''test''))),
          (js ''scope'', Scalar (JString (js ''all''))),
          (js ''timeframe'', Scalar (JString (js ''1w'')))]
         (Some (js ''this-is-a-valid-secret-key''))"
proof -
  let ?f1 = "[(js ''timeframe'', Scalar (JString (js ''1w''))),
              (js ''q'', Scalar (JString (js ''test''))),
              (js ''scope'', Scalar (JString (js ''all'')))]"
  let ?f2 = "[(js ''q'', Scalar (JString (js ''test''))),
              (js ''scope'', Scalar (JString (js ''all''))),
              (js ''timeframe'', Scalar (JString (js ''1w'')))]"
  have d1: "distinct (map fst ?f1)" and d2: "distinct (map fst ?f2)"
    by (simp_all add: js_def)
  have same: "map_of ?f1 = map_of ?f2"
    by (rule ext) (simp add: js_def)
  show ?thesis
    using d1 d2 digest_independent_of_key_order [OF d1 d2 same]
    by blast
qed

theorem empty_after_exclusion_signs_empty_string_witness:
  "16 \<le> length (js ''this-is-a-valid-secret-key'')
   \<and> list_all (array_includes excludeFromDigest)
         (object_keys [(js ''order'', Scalar (JString (js ''score_desc''))),
                       (js ''page[size]'', Scalar (JNumber 25))])
   \<and> filterString [(js ''order'', Scalar (JString (js ''score_desc''))),
                    (js ''page[size]'', Scalar (JNumber 25))] = []
   \<and> generateExplorerDigest [(js ''order'', Scalar (JString (js ''score_desc''))),
                              (js ''page[size]'', Scalar (JNumber 25))]
         (Some (js ''this-is-a-valid-secret-key''))
       = Inr (js ''7ee76f765974ed27b6295549f1fc5925d8798a06'')
   \<and> generateExplorerDigest [] (Some (js ''this-is-a-valid-secret-key''))
       = Inr (js ''7ee76f765974ed27b6295549f1fc5925d8798a06'')"
proof -
  let ?f = "[(js ''order'', Scalar (JString (js ''score_desc''))),
             (js ''page[size]'', Scalar (JNumber 25))]"
  have h: "16 \<le> length (js ''this-is-a-valid-secret-key'')"
    by (simp add: length_js)
  have ex: "\<forall>key \<in> set (object_keys ?f). array_includes excludeFromDigest key"
    by (simp add: object_keys_def array_includes_def excludeFromDigest_def)
  have ex0: "\<forall>key \<in> set (object_keys []). array_includes excludeFromDigest key"
    by (simp add: object_keys_def)
  have "list_all (array_includes excludeFromDigest) (object_keys ?f)"
    using ex by (simp only: list_all_iff)
  then show ?thesis
    using h empty_after_exclusion_signs_empty_string [OF h ex]
      empty_after_exclusion_signs_empty_string [OF h ex0]
    by (simp only: hmac_sha1_empty_message)
qed

text \<open>
  Claim C2.  The string \<open>generateExplorerDigest\<close> signs is the canonical string of the
  specification: the non-excluded keys in sorted order, each followed by its value tokens
  (the elements of a list in their order, the single value otherwise), joined with a pipe
  without leading or trailing separator.  The filters \<open>{q: "climate", type: ["article",
  "dataset"]}\<close> give \<open>q|climate|type|article|dataset\<close>.
\<close>

theorem signed_string_is_canonical_string:
  assumes "16 \<le> length secret"
  shows "filterString filters = spec_canonical_string filters
    \<and> generateExplorerDigest filters (Some secret)
        = Inr (hex (hmac_sha1 (utf8 secret) (utf8 (spec_canonical_string filters))))
    \<and> filterString [(js ''q'', Scalar (JString (js ''climate''))),
                     (js ''type'', Array [JString (js ''article''), JString (js ''dataset'')])]
        = js ''q|climate|type|article|dataset''"
proof -
  have "filterString [(js ''q'', Scalar (JString (js ''climate''))),
                      (js ''type'', Array [JString (js ''article''), JString (js ''dataset'')])]
        = js ''q|climate|type|article|dataset''"
    by (simp add: filterString_def build_parts_def filterKeys_def object_keys_def
        array_includes_def excludeFromDigest_def push_entry_def js_def)
  with assms show ?thesis
    by (simp add: digest_valid filterString_spec)
qed

theorem signed_string_is_canonical_string_witness:
  "16 \<le> length (js ''this-is-a-valid-secret-key'')
   \<and> filterString [(js ''type'', Array [JString (js ''article''), JString (js ''dataset'')]),
                    (js ''page[number]'', Scalar (JNumber 2)),
                    (js ''q'', Scalar (JString (js ''climate'')))]
       = spec_canonical_string
           [(js ''type'', Array [JString (js ''article''), JString (js ''dataset'')]),
            (js ''page[number]'', Scalar (JNumber 2)),
            (js ''q'', Scalar (JString (js ''climate'')))]
   \<and> spec_canonical_string
           [(js ''type'', Array [JString (js ''article''), JString (js ''dataset'')]),
            (js ''page[number]'', Scalar (JNumber 2)),
            (js ''q'', Scalar (JString (js ''climate'')))]
       = js ''q|climate|type|article|dataset''"
proof -
  have h: "16 \<le> length (js ''this-is-a-valid-secret-key'')"
    by (simp add: length_js)
  have "spec_canonical_string
           [(js ''type'', Array [JString (js ''article''), JString (js ''dataset'')]),
            (js ''page[number]'', Scalar (JNumber 2)),
            (js ''q'', Scalar (JString (js ''climate'')))]
       = js ''q|climate|type|article|dataset''"
    by (simp add: spec_canonical_string_def ExcludedKeys_def js_def)
  then show ?thesis
    using h signed_string_is_canonical_string [OF h,
        of "[(js ''type'', Array [JString (js ''article''), JString (js ''dataset'')]),
            (js ''page[number]'', Scalar (JNumber 2)),
            (js ''q'', Scalar (JString (js ''climate'')))]"]
    by simp
qed

lemma entry_parts_elems:
  "map_of filters key = Some x \<Longrightarrow> entry_parts filters key = JString key # value_elems x"
  by (cases x) (simp_all add: entry_parts_def push_entry_def)

lemma build_parts_middle:
  assumes d: "distinct (map fst (before @ (key, x) # after))" and nx: "key \<notin> ExcludedKeys"
  shows "\<exists>pre post. \<forall>y. build_parts (before @ (key, y) # after)
                            = pre @ JString key # value_elems y @ post"
proof -
  let ?F = "\<lambda>y. before @ (key, y) # after"
  define K where "K = filterKeys (?F x)"
  have keys: "filterKeys (?F y) = K" for y
    by (simp add: K_def filterKeys_def object_keys_def)
  have "key \<in> set K"
    using nx by (simp add: K_def filterKeys_set)
  then obtain ks1 ks2 where ks: "K = ks1 @ key # ks2"
    by (auto dest: split_list)
  have "distinct K"
    unfolding K_def using d by (rule filterKeys_distinct)
  with ks have notin: "key \<notin> set ks1" "key \<notin> set ks2"
    by simp_all
  have dy: "distinct (map fst (?F y))" for y
    using d by simp
  have at_key: "entry_parts (?F y) key = JString key # value_elems y" for y
  proof -
    have "map_of (?F y) key = Some y"
      using dy [of y] by (intro map_of_is_SomeI) simp_all
    then show ?thesis by (rule entry_parts_elems)
  qed
  define side where "side ks = concat (map (entry_parts (?F x)) ks)" for ks
  have other: "entry_parts (?F y) k = entry_parts (?F x) k" if "k \<noteq> key" for k y
    using that by (intro entry_parts_cong) (simp add: map_add_def split: option.splits)
  have side: "concat (map (entry_parts (?F y)) ks) = side ks" if "key \<notin> set ks" for ks y
  proof -
    have "map (entry_parts (?F y)) ks = map (entry_parts (?F x)) ks"
      using that by (intro map_cong [OF refl] other) auto
    then show ?thesis by (simp only: side_def)
  qed
  have "build_parts (?F y) = side ks1 @ JString key # value_elems y @ side ks2" for y
    by (simp add: build_parts_concat keys ks side [OF notin(1)] side [OF notin(2)] at_key)
  then show ?thesis by blast
qed

lemma spec_join_append:
  "ts \<noteq> [] \<Longrightarrow> spec_join (ts @ us) = spec_join ts @ concat (map (\<lambda>u. 0x7C # u) us)"
  by (cases ts) simp_all

lemma spec_join_middle_inj:
  assumes "spec_join (ts @ [key, w] @ us) = spec_join (ts @ [key, w'] @ us)"
  shows "w = w'"
proof -
  have "spec_join (ts @ [key, v] @ us)
        = spec_join (ts @ [key]) @ 0x7C # v @ concat (map (\<lambda>u. 0x7C # u) us)" for v
    using spec_join_append [of "ts @ [key]" "v # us"] by simp
  with assms show ?thesis by simp
qed

text \<open>
  Claim C10.  Exclusion looks at key names only.  Under a key that is not excluded, every
  element of the value is pushed to \<open>parts\<close> as it is, whatever it is (also the strings
  \<open>order\<close>, \<open>page[number]\<close> and \<open>page[size]\<close>), between parts that do not depend on the
  value; so it is a token of the signed string, and two string values that differ give
  signed strings that differ.
\<close>

theorem exclusion_applies_to_keys_only:
  assumes "distinct (map fst (before @ (key, x) # after))"
    and "\<not> array_includes excludeFromDigest key"
  shows "(\<exists>pre post. \<forall>y. build_parts (before @ (key, y) # after)
                            = pre @ JString key # value_elems y @ post)
    \<and> (\<forall>v \<in> set (value_elems x). v \<in> set (build_parts (before @ (key, x) # after)))
    \<and> (\<forall>w w'. filterString (before @ (key, Scalar (JString w)) # after)
                  = filterString (before @ (key, Scalar (JString w')) # after)
               \<longrightarrow> w = w')"
proof -
  from assms(2) have nx: "key \<notin> ExcludedKeys"
    by (simp add: array_includes_excluded)
  from build_parts_middle [OF assms(1) nx] obtain pre post
    where parts: "\<And>y. build_parts (before @ (key, y) # after)
                       = pre @ JString key # value_elems y @ post"
    by blast
  have inj: "w = w'"
    if "filterString (before @ (key, Scalar (JString w)) # after)
        = filterString (before @ (key, Scalar (JString w')) # after)" for w w'
  proof (rule spec_join_middle_inj)
    show "spec_join (map to_string pre @ [key, w] @ map to_string post)
          = spec_join (map to_string pre @ [key, w'] @ map to_string post)"
      using that by (simp add: filterString_tokens parts)
  qed
  have "\<exists>pre post. \<forall>y. build_parts (before @ (key, y) # after)
                           = pre @ JString key # value_elems y @ post"
    using parts by blast
  moreover have "\<forall>v \<in> set (value_elems x). v \<in> set (build_parts (before @ (key, x) # after))"
    by (simp add: parts)
  moreover have "\<forall>w w'. filterString (before @ (key, Scalar (JString w)) # after)
                         = filterString (before @ (key, Scalar (JString w')) # after)
                       \<longrightarrow> w = w'"
    using inj by blast
  ultimately show ?thesis by blast
qed

theorem exclusion_applies_to_keys_only_witness:
  "distinct (map fst ([] @ (js ''q'', Scalar (JString (js ''order'')))
                       # [(js ''order'', Scalar (JString (js ''score_desc'')))]))
   \<and> \<not> array_includes excludeFromDigest (js ''q'')
   \<and> JString (js ''order'')
       \<in> set (build_parts ([] @ (js ''q'', Scalar (JString (js ''order'')))
                               # [(js ''order'', Scalar (JString (js ''score_desc'')))]))
   \<and> filterString [(js ''q'', Scalar (JString (js ''order''))),
                    (js ''order'', Scalar (JString (js ''score_desc'')))]
       = js ''q|order''
   \<and> filterString [(js ''q'', Scalar (JString (js ''page[size]''))),
                    (js ''order'', Scalar (JString (js ''score_desc'')))]
       = js ''q|page[size]''
   \<and> filterString ([] @ (js ''q'', Scalar (JString (js ''order'')))
                       # [(js ''order'', Scalar (JString (js ''score_desc'')))])
       \<noteq> filterString ([] @ (js ''q'', Scalar (JString (js ''page[size]'')))
                           # [(js ''order'', Scalar (JString (js ''score_desc'')))])
   \<and> generateExplorerDigest [(js ''q'', Scalar (JString (js ''order''))),
                              (js ''order'', Scalar (JString (js ''score_desc'')))]
         (Some (js ''this-is-a-valid-secret-key''))
       = Inr (js ''05af8c291a412cc6b233cd51e98c895be79a3a10'')
   \<and> generateExplorerDigest [(js ''q'', Scalar (JString (js ''page[size]''))),
                              (js ''order'', Scalar (JString (js ''score_desc'')))]
         (Some (js ''this-is-a-valid-secret-key''))
       = Inr (js ''a6c718c72a154249f76a0d882d03f2c5b3dfca0f'')"
proof -
  let ?after = "[(js ''order'', Scalar (JString (js ''score_desc'')))]"
  let ?f1 = "[(js ''q'', Scalar (JString (js ''order''))),
              (js ''order'', Scalar (JString (js ''score_desc'')))]"
  let ?f2 = "[(js ''q'', Scalar (JString (js ''page[size]''))),
              (js ''order'', Scalar (JString (js ''score_desc'')))]"
  have d: "distinct (map fst ([] @ (js ''q'', Scalar (JString (js ''order''))) # ?after))"
    by (simp add: js_def)
  have nx: "\<not> array_includes excludeFromDigest (js ''q'')"
    by (simp add: array_includes_def excludeFromDigest_def js_def)
  have ne: "js ''order'' \<noteq> js ''page[size]''"
    by (simp add: js_def)
  have h: "16 \<le> length (js ''this-is-a-valid-secret-key'')"
    by (simp add: length_js)
  have s1: "filterString ?f1 = js ''q|order''"
    by (simp add: filterString_def build_parts_def filterKeys_def object_keys_def
        array_includes_def excludeFromDigest_def push_entry_def js_def)
  have s2: "filterString ?f2 = js ''q|page[size]''"
    by (simp add: filterString_def build_parts_def filterKeys_def object_keys_def
        array_includes_def excludeFromDigest_def push_entry_def js_def)
  have d1: "generateExplorerDigest ?f1 (Some (js ''this-is-a-valid-secret-key''))
            = Inr (js ''05af8c291a412cc6b233cd51e98c895be79a3a10'')"
    by (simp only: digest_valid [OF h] s1 hmac_sha1_q_order)
  have d2: "generateExplorerDigest ?f2 (Some (js ''this-is-a-valid-secret-key''))
            = Inr (js ''a6c718c72a154249f76a0d882d03f2c5b3dfca0f'')"
    by (simp only: digest_valid [OF h] s2 hmac_sha1_q_page_size)
  have "(\<forall>v \<in> set (value_elems (Scalar (JString (js ''order'')))).
           v \<in> set (build_parts ([] @ (js ''q'', Scalar (JString (js ''order''))) # ?after)))
        \<and> (\<forall>w w'. filterString ([] @ (js ''q'', Scalar (JString w)) # ?after)
                     = filterString ([] @ (js ''q'', Scalar (JString w')) # ?after)
                   \<longrightarrow> w = w')"
    using exclusion_applies_to_keys_only [OF d nx] by blast
  then have "JString (js ''order'')
               \<in> set (build_parts ([] @ (js ''q'', Scalar (JString (js ''order''))) # ?after))"
    and "filterString ([] @ (js ''q'', Scalar (JString (js ''order''))) # ?after)
         \<noteq> filterString ([] @ (js ''q'', Scalar (JString (js ''page[size]''))) # ?after)"
    using ne by auto
  with d nx s1 s2 d1 d2 show ?thesis
    by blast
qed














lemma high_surrogate_is_surrogate: "is_high_surrogate u \<Longrightarrow> is_surrogate u"
  by (auto simp: is_high_surrogate_def is_surrogate_def word_le_nat_alt)

lemma code_points_plain:
  "\<forall>u \<in> set a. \<not> is_surrogate u \<Longrightarrow> code_points a = map unat a"
  by (induction a rule: code_points.induct) (auto dest: high_surrogate_is_surrogate)

lemma map_unat_le:
  fixes a b :: "'a::len word list"
  shows "(map unat a \<le> map unat b) = (a \<le> b)"
proof (induction a arbitrary: b)
  case Nil
  show ?case by simp
next
  case (Cons x xs)
  show ?case
    by (cases b) (simp_all add: Cons.IH word_less_nat_alt word_unat_eq_iff)
qed

lemma code_point_le_plain:
  assumes "\<forall>u \<in> set a. \<not> is_surrogate u" and "\<forall>u \<in> set b. \<not> is_surrogate u"
  shows "code_point_le a b = (a \<le> b)"
  by (simp add: code_point_le_def code_points_plain [OF assms(1)] code_points_plain [OF assms(2)]
      map_unat_le)

text \<open>
  Claim C5, as amended.  The keys that remain after exclusion are sorted in ascending
  lexicographic order of their UTF-16 code units, which is what the default sort of
  JavaScript compares.  This is the order by Unicode code point whenever no key holds a
  surrogate code unit (so for every key made of characters of the Basic Multilingual Plane).
  Keys that look numeric are compared as strings: \<open>10\<close> and \<open>100\<close> come before \<open>9\<close>.
\<close>

theorem filter_keys_sorted_by_code_units:
  "sorted (filterKeys filters)
   \<and> set (filterKeys filters)
       = {key \<in> set (object_keys filters). \<not> array_includes excludeFromDigest key}
   \<and> ((\<forall>key \<in> set (object_keys filters). \<forall>u \<in> set key. \<not> is_surrogate u)
        \<longrightarrow> sorted_wrt code_point_le (filterKeys filters))
   \<and> filterKeys [(js ''9'', x), (js ''10'', y), (js ''100'', z)] = [js ''10'', js ''100'', js ''9'']"
proof -
  have keys: "set (filterKeys filters)
              = {key \<in> set (object_keys filters). \<not> array_includes excludeFromDigest key}"
    by (auto simp: filterKeys_def)
  have "sorted_wrt code_point_le (filterKeys filters)"
    if plain: "\<forall>key \<in> set (object_keys filters). \<forall>u \<in> set key. \<not> is_surrogate u"
  proof (rule sorted_wrt_mono_rel [OF _ filterKeys_sorted])
    fix a b assume "a \<in> set (filterKeys filters)" "b \<in> set (filterKeys filters)" "a \<le> b"
    with keys plain have "\<forall>u \<in> set a. \<not> is_surrogate u" "\<forall>u \<in> set b. \<not> is_surrogate u"
      by auto
    then show "code_point_le a b"
      using \<open>a \<le> b\<close> by (simp add: code_point_le_plain)
  qed
  moreover have "filterKeys [(js ''9'', x), (js ''10'', y), (js ''100'', z)]
                 = [js ''10'', js ''100'', js ''9'']"
    by (simp add: filterKeys_def object_keys_def array_includes_def excludeFromDigest_def js_def)
  ultimately show ?thesis
    using keys by (simp add: filterKeys_sorted)
qed

theorem filter_keys_sorted_by_code_units_witness:
  "list_all (list_all (\<lambda>u. \<not> is_surrogate u))
     (object_keys [(js ''scope'', Scalar (JString (js ''all''))),
                   (js ''order'', Scalar (JString (js ''score_desc''))),
                   (js ''q'', Scalar (JString (js ''test'')))])
   \<and> filterKeys [(js ''scope'', Scalar (JString (js ''all''))),
                  (js ''order'', Scalar (JString (js ''score_desc''))),
                  (js ''q'', Scalar (JString (js ''test'')))] = [js ''q'', js ''scope'']
   \<and> sorted_wrt code_point_le [js ''q'', js ''scope'']"
proof -
  let ?f = "[(js ''scope'', Scalar (JString (js ''all''))),
             (js ''order'', Scalar (JString (js ''score_desc''))),
             (js ''q'', Scalar (JString (js ''test'')))]"
  have plain: "\<forall>key \<in> set (object_keys ?f). \<forall>u \<in> set key. \<not> is_surrogate u"
    by (simp add: object_keys_def js_def is_surrogate_def)
  have keys: "filterKeys ?f = [js ''q'', js ''scope'']"
    by (simp add: filterKeys_def object_keys_def array_includes_def excludeFromDigest_def js_def)
  from filter_keys_sorted_by_code_units [of ?f] plain
  have "sorted_wrt code_point_le (filterKeys ?f)"
    by blast
  with plain keys show ?thesis
    by (simp add: list_all_iff)
qed

text \<open>
  Claim C5 as stated, code point (or UTF-8 byte) order, fails on a key outside the Basic
  Multilingual Plane: the key U+1F600, the surrogate pair \<open>D83D DE00\<close>, is sorted before the
  key U+FF5E, although its code point is larger and its UTF-8 encoding is larger too.
\<close>

theorem filter_keys_not_in_code_point_order:
  "filterKeys [([0xFF5E], Scalar (JString (js ''a''))),
               ([0xD83D, 0xDE00], Scalar (JString (js ''b'')))]
     = [[0xD83D, 0xDE00], [0xFF5E]]
   \<and> code_points [0xD83D, 0xDE00] = [0x1F600]
   \<and> code_points [0xFF5E] = [0xFF5E]
   \<and> \<not> code_point_le [0xD83D, 0xDE00] [0xFF5E]
   \<and> \<not> utf8 [0xD83D, 0xDE00] \<le> utf8 [0xFF5E]
   \<and> \<not> sorted_wrt code_point_le
         (filterKeys [([0xFF5E], Scalar (JString (js ''a''))),
                      ([0xD83D, 0xDE00], Scalar (JString (js ''b'')))])"
proof -
  have keys: "filterKeys [([0xFF5E], Scalar (JString (js ''a''))),
                          ([0xD83D, 0xDE00], Scalar (JString (js ''b'')))]
              = [[0xD83D, 0xDE00], [0xFF5E]]"
    by (simp add: filterKeys_def object_keys_def array_includes_def excludeFromDigest_def js_def)
  have cp: "code_points [0xD83D, 0xDE00] = [0x1F600]" "code_points [0xFF5E] = [0xFF5E]"
    by (simp_all add: is_high_surrogate_def is_low_surrogate_def pair_code_point_def)
  have u8: "utf8 [0xD83D, 0xDE00] = [0xF0, 0x9F, 0x98, 0x80]" "utf8 [0xFF5E] = [0xEF, 0xBD, 0x9E]"
    by (simp_all only: utf8_def cp) (simp_all add: utf8_code_point_def)
  show ?thesis
    by (simp add: keys cp u8 code_point_le_def del: code_points.simps)
qed

end
